theory Spec2Isabelle
  imports Complex_Main "HOL-Library.Log_Nat"
begin

section \<open>Python floats\<close>

text \<open>
  A Python float is an IEEE 754 binary64 value: a finite value (kept as the rational it
  is), an infinity or a NaN. The sign of zero is not modelled. Python integers are
  unbounded (\<open>int\<close>).
\<close>

datatype pyfloat = Fin rat | PosInf | NegInf | NaN

text \<open>Rounding to the nearest integer, a tie going to the even neighbour.\<close>

definition round_half_even :: "rat \<Rightarrow> int" where
  "round_half_even x =
     (let f = \<lfloor>x\<rfloor>; d = x - of_int f
      in if d < 1 / 2 then f
         else if 1 / 2 < d then f + 1
         else if even f then f else f + 1)"

text \<open>
  \<open>ilog2 x\<close> is the binary exponent of \<open>x \<noteq> 0\<close>: the \<open>e\<close> with \<open>2 powi e \<le> \<bar>x\<bar> < 2 powi (e + 1)\<close>.
  The bit lengths of numerator and denominator give it up to one, and one comparison
  decides.
\<close>

definition ilog2 :: "rat \<Rightarrow> int" where
  "ilog2 x =
     (let p = fst (quotient_of \<bar>x\<bar>); q = snd (quotient_of \<bar>x\<bar>); d = bitlen p - bitlen q
      in if 2 powi d \<le> \<bar>x\<bar> then d else d - 1)"

text \<open>
  The spacing of binary64 values around \<open>x\<close>: 53 significant bits, and the fixed spacing
  \<open>2 powi (- 1074)\<close> of the subnormal values below \<open>2 powi (- 1022)\<close>.
\<close>

definition ulp :: "rat \<Rightarrow> rat" where
  "ulp x = 2 powi (max (ilog2 x) (- 1022) - 52)"

text \<open>
  \<open>fl x\<close> is \<open>x\<close> rounded to binary64 precision (to nearest, ties to even), with the
  exponent not yet limited from above: a value of magnitude \<open>2 ^ 1024\<close> or more is out of
  range, and every operation below says what it does then.
\<close>

definition fl :: "rat \<Rightarrow> rat" where
  "fl x = (if x = 0 then 0 else of_int (round_half_even (x / ulp x)) * ulp x)"

text \<open>The result of a float operation whose exact result is \<open>x\<close>: overflow gives an infinity.\<close>

definition to_float :: "rat \<Rightarrow> pyfloat" where
  "to_float x =
     (let y = fl x
      in if 2 ^ 1024 \<le> y then PosInf else if y \<le> - (2 ^ 1024) then NegInf else Fin y)"

text \<open>\<^verbatim>\<open>x * n\<close> and \<^verbatim>\<open>x / n\<close> for a float \<open>x\<close> and a small integer \<open>n\<close>, which converts exactly.\<close>

fun float_mul_int :: "pyfloat \<Rightarrow> int \<Rightarrow> pyfloat" where
  "float_mul_int (Fin x) n = to_float (x * of_int n)"
| "float_mul_int PosInf n = (if 0 < n then PosInf else if n < 0 then NegInf else NaN)"
| "float_mul_int NegInf n = (if 0 < n then NegInf else if n < 0 then PosInf else NaN)"
| "float_mul_int NaN n = NaN"

text \<open>The divisor is never zero here: the one division of the program is by 10000.\<close>

fun float_div_int :: "pyfloat \<Rightarrow> int \<Rightarrow> pyfloat" where
  "float_div_int (Fin x) n = to_float (x / of_int n)"
| "float_div_int PosInf n = (if 0 < n then PosInf else NegInf)"
| "float_div_int NegInf n = (if 0 < n then NegInf else PosInf)"
| "float_div_int NaN n = NaN"

fun float_add :: "pyfloat \<Rightarrow> pyfloat \<Rightarrow> pyfloat" where
  "float_add (Fin x) (Fin y) = to_float (x + y)"
| "float_add NaN y = NaN"
| "float_add x NaN = NaN"
| "float_add PosInf NegInf = NaN"
| "float_add NegInf PosInf = NaN"
| "float_add PosInf y = PosInf"
| "float_add NegInf y = NegInf"
| "float_add (Fin x) y = y"

text \<open>\<^verbatim>\<open>x < n\<close> for a float and an integer; a NaN compares false.\<close>

fun float_less_int :: "pyfloat \<Rightarrow> int \<Rightarrow> bool" where
  "float_less_int (Fin x) n = (x < of_int n)"
| "float_less_int NegInf n = True"
| "float_less_int PosInf n = False"
| "float_less_int NaN n = False"

text \<open>
  \<^verbatim>\<open>round(x, 2)\<close> on a float: the exact value of \<open>x\<close> is rounded to two decimals (ties to
  even), and the decimal result is converted back to the nearest float. Infinities and
  NaN round to themselves.
\<close>

definition py_round2 :: "rat \<Rightarrow> rat" where
  "py_round2 x = fl (of_int (round_half_even (x * 100)) / 100)"

fun float_round2 :: "pyfloat \<Rightarrow> pyfloat" where
  "float_round2 (Fin x) = Fin (py_round2 x)"
| "float_round2 x = x"

section \<open>Values and exceptions\<close>

text \<open>
  The handler works on what \<^verbatim>\<open>response.json()\<close> returns: \<^verbatim>\<open>None\<close>, booleans, integers,
  floats, strings, lists and dicts. A dict is the list of its items (keys distinct),
  looked up with \<open>map_of\<close>.
\<close>

datatype json =
    JNull
  | JBool bool
  | JInt int
  | JFloat pyfloat
  | JStr string
  | JArr "json list"
  | JObj "(string \<times> json) list"

text \<open>Exceptions that are not \<^verbatim>\<open>requests.exceptions.RequestException\<close>.\<close>

datatype error = TypeError | AttributeError | OverflowError

text \<open>
  Statements run in order and the first exception ends the function: \<open>and_then r f\<close> is
  \<open>r\<close> when \<open>r\<close> raised, and \<open>f\<close> of its result otherwise.
\<close>

definition and_then :: "error + 'a \<Rightarrow> ('a \<Rightarrow> error + 'b) \<Rightarrow> error + 'b" where
  "and_then r f = (case r of Inl e \<Rightarrow> Inl e | Inr v \<Rightarrow> f v)"

text \<open>
  An integer that meets a float is converted first, and \<^verbatim>\<open>OverflowError\<close> is raised when
  it is too large for a float.
\<close>

definition int_to_float :: "int \<Rightarrow> error + pyfloat" where
  "int_to_float a =
     (let y = fl (of_int a) in if 2 ^ 1024 \<le> \<bar>y\<bar> then Inl OverflowError else Inr (Fin y))"

text \<open>\<^verbatim>\<open>d.get(k, default)\<close>; only a dict has the method.\<close>

definition dict_get :: "json \<Rightarrow> string \<Rightarrow> json \<Rightarrow> error + json" where
  "dict_get d k dflt =
     (case d of
        JObj kvs \<Rightarrow> Inr (case map_of kvs k of Some v \<Rightarrow> v | None \<Rightarrow> dflt)
      | _ \<Rightarrow> Inl AttributeError)"

text \<open>
  \<^verbatim>\<open>x * n\<close> for a small integer literal \<open>n\<close>: numbers multiply (\<^verbatim>\<open>True\<close> and \<^verbatim>\<open>False\<close>
  count as 1 and 0), strings and lists repeat, \<^verbatim>\<open>None\<close> and dicts raise.
\<close>

fun py_mul :: "json \<Rightarrow> int \<Rightarrow> error + json" where
  "py_mul (JInt a) n = Inr (JInt (a * n))"
| "py_mul (JBool b) n = Inr (JInt ((if b then 1 else 0) * n))"
| "py_mul (JFloat x) n = Inr (JFloat (float_mul_int x n))"
| "py_mul (JStr s) n = Inr (JStr (concat (replicate (nat n) s)))"
| "py_mul (JArr xs) n = Inr (JArr (concat (replicate (nat n) xs)))"
| "py_mul JNull n = Inl TypeError"
| "py_mul (JObj kvs) n = Inl TypeError"

text \<open>
  \<^verbatim>\<open>a + b\<close>: two integers (booleans included) give an integer, a float with any number
  gives a float, two strings or two lists concatenate, everything else raises.
\<close>

fun py_add :: "json \<Rightarrow> json \<Rightarrow> error + json" where
  "py_add (JInt a) (JInt b) = Inr (JInt (a + b))"
| "py_add (JInt a) (JBool b) = Inr (JInt (a + (if b then 1 else 0)))"
| "py_add (JInt a) (JFloat y) =
     and_then (int_to_float a) (\<lambda>x. Inr (JFloat (float_add x y)))"
| "py_add (JBool a) (JInt b) = Inr (JInt ((if a then 1 else 0) + b))"
| "py_add (JBool a) (JBool b) = Inr (JInt ((if a then 1 else 0) + (if b then 1 else 0)))"
| "py_add (JBool a) (JFloat y) = Inr (JFloat (float_add (Fin (if a then 1 else 0)) y))"
| "py_add (JFloat x) (JInt b) =
     and_then (int_to_float b) (\<lambda>y. Inr (JFloat (float_add x y)))"
| "py_add (JFloat x) (JBool b) = Inr (JFloat (float_add x (Fin (if b then 1 else 0))))"
| "py_add (JFloat x) (JFloat y) = Inr (JFloat (float_add x y))"
| "py_add (JStr s) (JStr t) = Inr (JStr (s @ t))"
| "py_add (JArr xs) (JArr ys) = Inr (JArr (xs @ ys))"
| "py_add _ _ = Inl TypeError"

text \<open>
  \<^verbatim>\<open>x / n\<close> for a non-zero integer literal \<open>n\<close>, for numbers only. The quotient of two
  integers is the correctly rounded float, and \<^verbatim>\<open>OverflowError\<close> when that is out of range.
\<close>

fun py_truediv :: "json \<Rightarrow> int \<Rightarrow> error + pyfloat" where
  "py_truediv (JInt a) n =
     (let y = fl (of_int a / of_int n)
      in if 2 ^ 1024 \<le> \<bar>y\<bar> then Inl OverflowError else Inr (Fin y))"
| "py_truediv (JBool b) n = Inr (Fin (fl ((if b then 1 else 0) / of_int n)))"
| "py_truediv (JFloat x) n = Inr (float_div_int x n)"
| "py_truediv _ n = Inl TypeError"

text \<open>
  Iterating a value, as the generator expressions over \<^verbatim>\<open>repos_data\<close> do: a list gives its
  elements, a dict its keys, a string its characters; nothing else is iterable.
\<close>

fun py_iter :: "json \<Rightarrow> error + json list" where
  "py_iter (JArr xs) = Inr xs"
| "py_iter (JObj kvs) = Inr (map (\<lambda>kv. JStr (fst kv)) kvs)"
| "py_iter (JStr s) = Inr (map (\<lambda>c. JStr [c]) s)"
| "py_iter _ = Inl TypeError"

text \<open>
  \<^verbatim>\<open>sum(repo.get(k, 0) for repo in repos)\<close>, from the accumulator \<open>acc\<close> (\<open>0\<close> at the start):
  each element is read and added in turn, and the first exception ends the sum. Floats are
  added one by one, each addition rounded (Python 3.12 and later compensate the rounding
  errors of a sum of floats); every statement below is about sums of integers.
\<close>

fun sum_field :: "string \<Rightarrow> json list \<Rightarrow> json \<Rightarrow> error + json" where
  "sum_field k [] acc = Inr acc"
| "sum_field k (repo # repos) acc =
     and_then (dict_get repo k (JInt 0)) (\<lambda>v.
     and_then (py_add acc v) (\<lambda>acc'. sum_field k repos acc'))"

definition sum_over :: "string \<Rightarrow> json \<Rightarrow> error + json" where
  "sum_over k repos_data =
     and_then (py_iter repos_data) (\<lambda>repos. sum_field k repos (JInt 0))"

section \<open>The score\<close>

definition MAX_POSSIBLE_SCORE :: int where
  "MAX_POSSIBLE_SCORE = 10000"

text \<open>
  \<^verbatim>\<open>round(min(100, x), 2)\<close> for the float \<open>x\<close>: \<^verbatim>\<open>min\<close> keeps its first argument,
  the integer 100, unless \<open>x\<close> is smaller, and \<^verbatim>\<open>round\<close> of an integer is that integer.
\<close>

definition normalized_score :: "pyfloat \<Rightarrow> json" where
  "normalized_score x = (if float_less_int x 100 then JFloat (float_round2 x) else JInt 100)"

definition calculate_gitworth :: "json \<Rightarrow> json \<Rightarrow> error + json" where
  "calculate_gitworth profile_data repos_data =
     and_then (dict_get profile_data ''followers'' (JInt 0)) (\<lambda>followers.
     and_then (dict_get profile_data ''public_repos'' (JInt 0)) (\<lambda>public_repos.
     and_then (sum_over ''stargazers_count'' repos_data) (\<lambda>stars.
     and_then (sum_over ''forks_count'' repos_data) (\<lambda>forks.
     and_then (py_mul followers 3) (\<lambda>a.
     and_then (py_mul public_repos 2) (\<lambda>b.
     and_then (py_add a b) (\<lambda>ab.
     and_then (py_mul stars 4) (\<lambda>c.
     and_then (py_add ab c) (\<lambda>abc.
     and_then (py_mul forks 1) (\<lambda>d.
     and_then (py_add abc d) (\<lambda>raw_score.
     and_then (py_truediv raw_score MAX_POSSIBLE_SCORE) (\<lambda>q.
       Inr (normalized_score (float_mul_int q 100))))))))))))))"

text \<open>
  Lines 35 to 37 on an integer raw score: the division, the multiplication, the minimum
  and the rounding, as the last two steps of \<open>calculate_gitworth\<close> have them.
\<close>

definition score_of_raw :: "int \<Rightarrow> error + json" where
  "score_of_raw raw =
     and_then (py_truediv (JInt raw) MAX_POSSIBLE_SCORE) (\<lambda>q.
       Inr (normalized_score (float_mul_int q 100)))"

text \<open>The number a returned score stands for.\<close>

fun number_of :: "json \<Rightarrow> rat" where
  "number_of (JInt i) = of_int i"
| "number_of (JFloat (Fin x)) = x"
| "number_of (JBool b) = (if b then 1 else 0)"
| "number_of _ = 0"

text \<open>
  Reading the inputs the way the specification names them: \<open>int_field d k\<close> is the integer
  the dict \<open>d\<close> holds under \<open>k\<close>, 0 when the key is missing, and nothing when \<open>d\<close> is not a
  dict or holds something else there; \<open>total_of k repos\<close> adds it up over a repository list.
\<close>

definition int_field :: "json \<Rightarrow> string \<Rightarrow> int option" where
  "int_field d k =
     (case d of
        JObj kvs \<Rightarrow>
          (case map_of kvs k of
             None \<Rightarrow> Some 0
           | Some (JInt n) \<Rightarrow> Some n
           | Some _ \<Rightarrow> None)
      | _ \<Rightarrow> None)"

fun total_of :: "string \<Rightarrow> json list \<Rightarrow> int option" where
  "total_of k [] = Some 0"
| "total_of k (repo # repos) =
     (case int_field repo k of
        None \<Rightarrow> None
      | Some n \<Rightarrow> (case total_of k repos of None \<Rightarrow> None | Some m \<Rightarrow> Some (n + m)))"

text \<open>
  The formula of the specification, \<^verbatim>\<open>min(100, round(raw / 100, 2))\<close>, with the quotient and
  the rounding in binary64 as Python computes them. The exponent of the quotient is not
  limited here, so that the formula has a value at every raw score: from 10000 on that
  value is 100.
\<close>

definition spec_score :: "int \<Rightarrow> rat" where
  "spec_score raw = min 100 (py_round2 (fl (of_int raw / 100)))"

text \<open>
  Where the quotient of the raw score by 10000 stops being a float: the quotient of
  \<open>10000 * (2 ^ 1024 - 2 ^ 970)\<close>, about 1.8e312, is the first that rounds to \<open>2 ^ 1024\<close>.
\<close>

definition raw_score_limit :: int where
  "raw_score_limit = 10000 * (2 ^ 1024 - 2 ^ 970)"

section \<open>The request handler\<close>

text \<open>
  \<^verbatim>\<open>requests.get(url)\<close> either raises a \<^verbatim>\<open>RequestException\<close> (kept with its \<^verbatim>\<open>str\<close>) or
  returns a response, of which the handler reads the status code and the body. The body
  either parses as JSON or it does not; on a body that does not, \<^verbatim>\<open>response.json()\<close>
  raises \<^verbatim>\<open>requests.exceptions.JSONDecodeError\<close>, which is a \<^verbatim>\<open>RequestException\<close> (kept
  with its \<^verbatim>\<open>str\<close>). The upstream is a function from URLs to such results; every call is
  appended to the log \<open>requests_made\<close>.
\<close>

datatype http_body = Json json | NotJson string

datatype upstream_result = Raises string | Returns int http_body

text \<open>What a view returns to Flask: the body handed to \<^verbatim>\<open>jsonify\<close> and the status code.\<close>

record response =
  body :: json
  status_code :: int

record server =
  cache :: "string \<Rightarrow> (nat \<times> response) option"
  requests_made :: "string list"

definition GITHUB_API_URL :: string where
  "GITHUB_API_URL = ''https://api.github.com/users/''"

text \<open>\<^verbatim>\<open>GITHUB_REPOS_URL.format(username)\<close>\<close>

definition GITHUB_REPOS_URL_format :: "string \<Rightarrow> string" where
  "GITHUB_REPOS_URL_format username = ''https://api.github.com/users/'' @ username @ ''/repos''"

definition requests_get ::
  "(string \<Rightarrow> upstream_result) \<Rightarrow> string \<Rightarrow> server \<Rightarrow> upstream_result \<times> server" where
  "requests_get upstream url s = (upstream url, s\<lparr>requests_made := requests_made s @ [url]\<rparr>)"

definition error_response :: "string \<Rightarrow> int \<Rightarrow> response" where
  "error_response msg code = \<lparr>body = JObj [(''error'', JStr msg)], status_code = code\<rparr>"

text \<open>Lines 50 to 61: the score and the response built from the two parsed bodies.\<close>

definition success_response :: "json \<Rightarrow> json \<Rightarrow> error + response" where
  "success_response profile_data repos_data =
     and_then (calculate_gitworth profile_data repos_data) (\<lambda>gitworth_score.
     and_then (dict_get profile_data ''login'' JNull) (\<lambda>login.
     and_then (dict_get profile_data ''name'' JNull) (\<lambda>name.
     and_then (dict_get profile_data ''followers'' JNull) (\<lambda>followers.
     and_then (dict_get profile_data ''public_repos'' JNull) (\<lambda>public_repos.
     and_then (sum_over ''stargazers_count'' repos_data) (\<lambda>stars_received.
     and_then (sum_over ''forks_count'' repos_data) (\<lambda>forks_received.
       Inr \<lparr>body = JObj
              [(''username'', login),
               (''name'', name),
               (''followers'', followers),
               (''public_repos'', public_repos),
               (''stars_received'', stars_received),
               (''forks_received'', forks_received),
               (''gitworth_score'', gitworth_score)],
            status_code = 200\<rparr>)))))))"

text \<open>
  Lines 47 to 61, the branch taken when both status codes are 200: the two bodies are
  parsed in turn, and a body that is not JSON ends in the \<^verbatim>\<open>except\<close> clause.
\<close>

definition both_ok :: "http_body \<Rightarrow> http_body \<Rightarrow> error + response" where
  "both_ok profile_body repos_body =
     (case profile_body of
        NotJson e \<Rightarrow> Inr (error_response e 500)
      | Json profile_data \<Rightarrow>
          (case repos_body of
             NotJson e \<Rightarrow> Inr (error_response e 500)
           | Json repos_data \<Rightarrow> success_response profile_data repos_data))"

text \<open>
  The function \<^verbatim>\<open>get_profile\<close> as the \<^verbatim>\<open>def\<close> writes it. \<open>Inl\<close> is an exception that
  leaves the function: only a \<^verbatim>\<open>RequestException\<close> is caught.
\<close>

definition get_profile ::
  "(string \<Rightarrow> upstream_result) \<Rightarrow> string \<Rightarrow> server \<Rightarrow> (error + response) \<times> server" where
  "get_profile upstream username s =
     (case requests_get upstream (GITHUB_API_URL @ username) s of
        (Raises e, s1) \<Rightarrow> (Inr (error_response e 500), s1)
      | (Returns profile_status profile_body, s1) \<Rightarrow>
          (case requests_get upstream (GITHUB_REPOS_URL_format username) s1 of
             (Raises e, s2) \<Rightarrow> (Inr (error_response e 500), s2)
           | (Returns repos_status repos_body, s2) \<Rightarrow>
               (if profile_status = 200 \<and> repos_status = 200
                  then both_ok profile_body repos_body
                else if profile_status = 403
                  then Inr (error_response ''GitHub API rate limit exceeded. Try again later.'' 403)
                else Inr (error_response ''User not found'' 404),
                s2)))"

definition is_success :: "error + response \<Rightarrow> bool" where
  "is_success r = (case r of Inl e \<Rightarrow> False | Inr resp \<Rightarrow> status_code resp = 200)"

subsection \<open>The decorators\<close>

text \<open>
  \<^verbatim>\<open>cache.memoize(timeout)(f)\<close> is a new function: at time \<open>now\<close> it returns the entry stored
  for its argument while that entry has not expired, and otherwise calls \<open>f\<close> and stores
  what \<open>f\<close> returned (not what it raised) until \<open>now + timeout\<close>.
\<close>

definition memoize ::
  "nat \<Rightarrow> ((string \<Rightarrow> upstream_result) \<Rightarrow> string \<Rightarrow> server \<Rightarrow> (error + response) \<times> server) \<Rightarrow>
   nat \<Rightarrow> (string \<Rightarrow> upstream_result) \<Rightarrow> string \<Rightarrow> server \<Rightarrow> (error + response) \<times> server" where
  "memoize timeout f now upstream username s =
     (let miss =
        (case f upstream username s of
           (Inl e, s') \<Rightarrow> (Inl e, s')
         | (Inr rv, s') \<Rightarrow> (Inr rv, s'\<lparr>cache := (cache s')(username \<mapsto> (now + timeout, rv))\<rparr>))
      in case cache s username of
           None \<Rightarrow> miss
         | Some (expires, rv) \<Rightarrow> if now < expires then (Inr rv, s) else miss)"

text \<open>
  \<^verbatim>\<open>app.route(rule)(f)\<close> stores \<open>f\<close> as the view function of the rule and returns \<open>f\<close>
  itself: the first component is what the URL map holds, the second what the decorator
  returns.
\<close>

definition route :: "'f \<Rightarrow> 'f \<times> 'f" where
  "route f = (f, f)"

text \<open>
  Decorators apply from the bottom up: \<^verbatim>\<open>app.route\<close> is applied to the function first,
  \<^verbatim>\<open>cache.memoize(300)\<close> to what it returns. \<open>view_function\<close> is what the URL map holds for
  \<^verbatim>\<open>/profile/<username>\<close>, \<open>get_profile_memoized\<close> is what the module's name
  \<^verbatim>\<open>get_profile\<close> is bound to in the end.
\<close>

definition view_function ::
  "(string \<Rightarrow> upstream_result) \<Rightarrow> string \<Rightarrow> server \<Rightarrow> (error + response) \<times> server" where
  "view_function = fst (route get_profile)"

definition get_profile_memoized ::
  "nat \<Rightarrow> (string \<Rightarrow> upstream_result) \<Rightarrow> string \<Rightarrow> server \<Rightarrow> (error + response) \<times> server" where
  "get_profile_memoized = memoize 300 (snd (route get_profile))"

text \<open>A request \<^verbatim>\<open>GET /profile/<username>\<close> at time \<open>now\<close>: Flask calls the view function.\<close>

definition dispatch_request ::
  "nat \<Rightarrow> (string \<Rightarrow> upstream_result) \<Rightarrow> string \<Rightarrow> server \<Rightarrow> (error + response) \<times> server" where
  "dispatch_request now upstream username s = view_function upstream username s"

definition initial_server :: server where
  "initial_server = \<lparr>cache = (\<lambda>username. None), requests_made = []\<rparr>"

subsection \<open>Upstreams used as concrete inputs\<close>

text \<open>The scenario of the specification: 100 followers, 20 repositories, 75 stars, 15 forks.\<close>

definition scenario_upstream :: "string \<Rightarrow> upstream_result" where
  "scenario_upstream url =
     (if url = ''https://api.github.com/users/octocat''
      then Returns 200 (Json (JObj [(''login'', JStr ''octocat''), (''name'', JNull),
             (''followers'', JInt 100), (''public_repos'', JInt 20)]))
      else Returns 200 (Json (JArr
             [JObj [(''stargazers_count'', JInt 50), (''forks_count'', JInt 10)],
              JObj [(''stargazers_count'', JInt 25), (''forks_count'', JInt 5)]])))"

text \<open>A profile without \<^verbatim>\<open>followers\<close> and \<^verbatim>\<open>public_repos\<close>, and no repositories.\<close>

definition sparse_upstream :: "string \<Rightarrow> upstream_result" where
  "sparse_upstream url =
     (if url = ''https://api.github.com/users/octocat''
      then Returns 200 (Json (JObj [(''login'', JStr ''octocat'')]))
      else Returns 200 (Json (JArr [])))"


text \<open>Status 403 for the profile, 200 for the repositories.\<close>

definition profile_limited_upstream :: "string \<Rightarrow> upstream_result" where
  "profile_limited_upstream url =
     (if url = ''https://api.github.com/users/octocat''
      then Returns 403 (Json (JObj [(''message'', JStr ''API rate limit exceeded'')]))
      else Returns 200 (Json (JArr [])))"

text \<open>Status 200 for the profile, 403 for the repositories.\<close>

definition repos_limited_upstream :: "string \<Rightarrow> upstream_result" where
  "repos_limited_upstream url =
     (if url = ''https://api.github.com/users/octocat''
      then Returns 200 (Json (JObj [(''login'', JStr ''octocat'')]))
      else Returns 403 (Json (JObj [(''message'', JStr ''API rate limit exceeded'')])))"


text \<open>Every call fails; and: the profile call returns, the repositories call fails.\<close>

definition unreachable_upstream :: "string \<Rightarrow> upstream_result" where
  "unreachable_upstream url = Raises ''Connection refused''"

definition repos_timeout_upstream :: "string \<Rightarrow> upstream_result" where
  "repos_timeout_upstream url =
     (if url = ''https://api.github.com/users/octocat''
      then Returns 200 (Json (JObj [(''login'', JStr ''octocat'')]))
      else Raises ''Read timed out'')"

section \<open>Properties of the rounding\<close>

lemma round_half_even_error: "\<bar>of_int (round_half_even z) - z\<bar> \<le> 1 / 2"
  unfolding round_half_even_def Let_def
  by (auto simp: abs_if) linarith+

lemma round_half_even_eqI:
  assumes "\<bar>z - of_int n\<bar> < 1 / 2"
  shows "round_half_even z = n"
proof -
  have "\<bar>of_int (round_half_even z) - (of_int n :: rat)\<bar> < 1"
    using round_half_even_error [of z] assms by linarith
  then have "\<bar>round_half_even z - n\<bar> < 1"
    by (metis of_int_abs of_int_diff of_int_less_1_iff)
  then show ?thesis by linarith
qed

lemma round_half_even_ge:
  assumes "of_int m \<le> z"
  shows "m \<le> round_half_even z"
proof -
  have "m \<le> \<lfloor>z\<rfloor>" using assms by (simp add: le_floor_iff)
  moreover have "\<lfloor>z\<rfloor> \<le> round_half_even z"
    by (simp add: round_half_even_def Let_def)
  ultimately show ?thesis by linarith
qed

lemma pow2_less_iff: "(2::rat) powi m < 2 powi n \<longleftrightarrow> m < n"
proof
  assume "(2::rat) powi m < 2 powi n"
  show "m < n"
  proof (rule ccontr)
    assume "\<not> m < n"
    then have "n \<le> m" by simp
    then have "(2::rat) powi n \<le> 2 powi m"
      by (rule power_int_increasing) simp
    with \<open>(2::rat) powi m < 2 powi n\<close> show False by simp
  qed
next
  assume "m < n"
  then show "(2::rat) powi m < 2 powi n"
    by (rule power_int_strict_increasing) simp
qed

lemma ilog2_bounds:
  assumes "x \<noteq> 0"
  shows "2 powi (ilog2 x) \<le> \<bar>x\<bar>" and "\<bar>x\<bar> < 2 powi (ilog2 x + 1)"
proof -
  obtain p q where pq: "quotient_of \<bar>x\<bar> = (p, q)"
    by (cases "quotient_of \<bar>x\<bar>")
  have q: "0 < q" using pq by (rule quotient_of_denom_pos)
  have x: "\<bar>x\<bar> = of_int p / of_int q" using pq by (rule quotient_of_div)
  have p: "0 < p"
  proof -
    have "0 < \<bar>x\<bar>" using assms by simp
    then have "0 < (of_int p :: rat) / of_int q" by (simp only: x)
    with q show ?thesis by (simp add: zero_less_divide_iff)
  qed
  define bp where "bp = bitlen p"
  define bq where "bq = bitlen q"
  have bp1: "1 \<le> bp" and bq1: "1 \<le> bq"
    using p q bitlen_eq_zero_iff [of p] bitlen_eq_zero_iff [of q] bitlen_nonneg [of p]
      bitlen_nonneg [of q]
    unfolding bp_def bq_def by linarith+
  have pb: "(2::rat) powi (bp - 1) \<le> of_int p" "(of_int p :: rat) < 2 powi bp"
  proof -
    have "2 ^ nat (bp - 1) \<le> p" "p < 2 ^ nat bp"
      using bitlen_bounds [OF p] unfolding bp_def by simp_all
    then have "(of_int (2 ^ nat (bp - 1)) :: rat) \<le> of_int p" "(of_int p :: rat) < of_int (2 ^ nat bp)"
      by (simp_all only: of_int_le_iff of_int_less_iff)
    then show "(2::rat) powi (bp - 1) \<le> of_int p" "(of_int p :: rat) < 2 powi bp"
      using bp1 by (simp_all add: power_int_nonneg_exp)
  qed
  have qb: "(2::rat) powi (bq - 1) \<le> of_int q" "(of_int q :: rat) < 2 powi bq"
  proof -
    have "2 ^ nat (bq - 1) \<le> q" "q < 2 ^ nat bq"
      using bitlen_bounds [OF q] unfolding bq_def by simp_all
    then have "(of_int (2 ^ nat (bq - 1)) :: rat) \<le> of_int q" "(of_int q :: rat) < of_int (2 ^ nat bq)"
      by (simp_all only: of_int_le_iff of_int_less_iff)
    then show "(2::rat) powi (bq - 1) \<le> of_int q" "(of_int q :: rat) < 2 powi bq"
      using bq1 by (simp_all add: power_int_nonneg_exp)
  qed
  have qpos: "(0::rat) < of_int q" using q by simp
  have lower: "(2::rat) powi (bp - bq - 1) < \<bar>x\<bar>"
  proof -
    have "(2::rat) powi (bp - bq - 1) * 2 powi bq = 2 powi (bp - 1)"
      by (simp flip: power_int_add)
    then have "(2::rat) powi (bp - bq - 1) * 2 powi bq \<le> of_int p"
      using pb(1) by simp
    moreover have "(2::rat) powi (bp - bq - 1) * of_int q < 2 powi (bp - bq - 1) * 2 powi bq"
      using qb(2) by (simp add: mult_strict_left_mono)
    ultimately have "(2::rat) powi (bp - bq - 1) * of_int q < of_int p"
      by linarith
    then show ?thesis
      using qpos by (simp add: x pos_less_divide_eq)
  qed
  have upper: "\<bar>x\<bar> < 2 powi (bp - bq + 1)"
  proof -
    have "(2::rat) powi (bp - bq + 1) * 2 powi (bq - 1) = 2 powi bp"
      by (simp flip: power_int_add)
    moreover have "(2::rat) powi (bp - bq + 1) * 2 powi (bq - 1) \<le> 2 powi (bp - bq + 1) * of_int q"
      using qb(1) by (simp add: mult_left_mono)
    ultimately have "of_int p < (2::rat) powi (bp - bq + 1) * of_int q"
      using pb(2) by linarith
    then show ?thesis
      using qpos by (simp add: x pos_divide_less_eq)
  qed
  have il: "ilog2 x = (if 2 powi (bp - bq) \<le> \<bar>x\<bar> then bp - bq else bp - bq - 1)"
    by (simp add: ilog2_def pq bp_def bq_def Let_def)
  show "2 powi (ilog2 x) \<le> \<bar>x\<bar>"
    using lower by (simp add: il)
  show "\<bar>x\<bar> < 2 powi (ilog2 x + 1)"
    using upper by (auto simp add: il not_le)
qed

lemma ilog2_ge:
  assumes "2 powi k \<le> \<bar>x\<bar>"
  shows "k \<le> ilog2 x"
proof -
  have "x \<noteq> 0"
  proof
    assume "x = 0"
    with assms have "2 powi k \<le> (0::rat)" by simp
    moreover have "(0::rat) < 2 powi k" by simp
    ultimately show False by linarith
  qed
  then have "2 powi k < (2::rat) powi (ilog2 x + 1)"
    using ilog2_bounds(2) [of x] assms by linarith
  then show ?thesis
    by (simp add: pow2_less_iff)
qed

lemma ilog2_less:
  assumes "x \<noteq> 0" and "\<bar>x\<bar> < 2 powi k"
  shows "ilog2 x < k"
proof -
  have "(2::rat) powi (ilog2 x) < 2 powi k"
    using ilog2_bounds(1) [OF assms(1)] assms(2) by linarith
  then show ?thesis
    by (simp add: pow2_less_iff)
qed

lemma ulp_pos: "0 < ulp x"
  by (simp add: ulp_def)

lemma fl_abs_error: "\<bar>fl x - x\<bar> \<le> ulp x / 2"
proof (cases "x = 0")
  case True
  then show ?thesis using ulp_pos [of x] by (simp add: fl_def)
next
  case False
  have u: "0 < ulp x" by (rule ulp_pos)
  have "fl x - x = (of_int (round_half_even (x / ulp x)) - x / ulp x) * ulp x"
    using False u by (simp add: fl_def field_simps)
  then have "\<bar>fl x - x\<bar> = \<bar>of_int (round_half_even (x / ulp x)) - x / ulp x\<bar> * ulp x"
    using u by (simp add: abs_mult)
  also have "\<dots> \<le> (1 / 2) * ulp x"
    using round_half_even_error [of "x / ulp x"] u by (intro mult_right_mono) simp_all
  finally show ?thesis by simp
qed

lemma ulp_normal:
  assumes "2 powi (- 1022) \<le> \<bar>x\<bar>"
  shows "ulp x \<le> \<bar>x\<bar> / 2 ^ 52"
proof -
  have x: "x \<noteq> 0"
  proof
    assume "x = 0"
    with assms have "2 powi (- 1022) \<le> (0::rat)" by simp
    moreover have "(0::rat) < 2 powi (- 1022)" by (rule zero_less_power_int) simp
    ultimately show False by linarith
  qed
  have e: "- 1022 \<le> ilog2 x" using assms by (rule ilog2_ge)
  then have "ulp x = 2 powi (ilog2 x - 52)"
    by (simp add: ulp_def max_def)
  also have "\<dots> = 2 powi (ilog2 x) / 2 ^ 52"
    by (simp add: power_int_diff)
  also have "\<dots> \<le> \<bar>x\<bar> / 2 ^ 52"
    using ilog2_bounds(1) [OF x] by (simp add: divide_right_mono)
  finally show ?thesis .
qed

lemma fl_error:
  assumes "2 powi (- 1022) \<le> \<bar>x\<bar>"
  shows "\<bar>fl x - x\<bar> \<le> \<bar>x\<bar> / 2 ^ 53"
proof -
  have "\<bar>fl x - x\<bar> \<le> ulp x / 2" by (rule fl_abs_error)
  also have "\<dots> \<le> (\<bar>x\<bar> / 2 ^ 52) / 2"
    using ulp_normal [OF assms] by simp
  also have "\<dots> = \<bar>x\<bar> / 2 ^ 53" by simp
  finally show ?thesis .
qed

lemma ulp_below_overflow:
  assumes "\<bar>x\<bar> < 2 ^ 1024" and "x \<noteq> 0"
  shows "ulp x \<le> 2 ^ 971"
proof -
  have "\<bar>x\<bar> < 2 powi 1024" using assms(1) by simp
  then have "ilog2 x < 1024" using assms(2) by (intro ilog2_less) simp_all
  then have "max (ilog2 x) (- 1022) - 52 \<le> 971" by simp
  then have "(2::rat) powi (max (ilog2 x) (- 1022) - 52) \<le> 2 powi 971"
    by (rule power_int_increasing) simp
  then show ?thesis by (simp add: ulp_def)
qed

lemma fl_in_range:
  assumes "\<bar>x\<bar> < 2 ^ 1024 - 2 ^ 970"
  shows "\<bar>fl x\<bar> < 2 ^ 1024"
proof (cases "x = 0")
  case True
  then show ?thesis by (simp add: fl_def)
next
  case False
  have "\<bar>x\<bar> < 2 ^ 1024" using assms by simp
  then have "ulp x \<le> 2 ^ 971" using False by (rule ulp_below_overflow)
  then have "\<bar>fl x - x\<bar> \<le> 2 ^ 970"
    using fl_abs_error [of x] by simp
  with assms show ?thesis by linarith
qed

lemma fl_ge_int:
  assumes "0 < n" and "n \<le> 2 ^ 51" and "of_int n \<le> x"
  shows "of_int n \<le> fl x"
proof -
  have "1 \<le> n" using assms(1) by simp
  then have "(of_int 1 :: rat) \<le> of_int n" by (simp only: of_int_le_iff)
  then have x1: "1 \<le> x" using assms(3) by simp
  then have x0: "x \<noteq> 0" and xabs: "\<bar>x\<bar> = x" by simp_all
  have "2 powi 0 \<le> \<bar>x\<bar>" using x1 by simp
  then have e0: "0 \<le> ilog2 x" by (rule ilog2_ge)
  then have u: "ulp x = 2 powi (ilog2 x - 52)"
    by (simp add: ulp_def max_def)
  show ?thesis
  proof (cases "ilog2 x \<le> 52")
    case True
    define m where "m = n * 2 ^ nat (52 - ilog2 x)"
    have "of_int m * ulp x = (of_int n :: rat) * (2 powi (52 - ilog2 x) * 2 powi (ilog2 x - 52))"
      using True by (simp add: m_def u power_int_nonneg_exp)
    also have "2 powi (52 - ilog2 x) * (2::rat) powi (ilog2 x - 52) = 1"
      by (simp flip: power_int_add)
    finally have m: "of_int m * ulp x = (of_int n :: rat)" by simp
    then have "of_int m \<le> x / ulp x"
      using assms(3) ulp_pos [of x] by (simp add: pos_le_divide_eq)
    then have "m \<le> round_half_even (x / ulp x)"
      by (rule round_half_even_ge)
    then have "(of_int m :: rat) * ulp x \<le> of_int (round_half_even (x / ulp x)) * ulp x"
      using ulp_pos [of x] by (simp add: mult_right_mono)
    then show ?thesis
      using x0 by (simp add: fl_def m)
  next
    case False
    then have "53 \<le> ilog2 x" by simp
    then have "(2::rat) powi 53 \<le> 2 powi (ilog2 x)"
      by (rule power_int_increasing) simp
    then have big: "2 ^ 53 \<le> x"
      using ilog2_bounds(1) [OF x0] xabs by simp
    have "(2::rat) powi (- 1022) \<le> 2 powi 0"
      by (rule power_int_increasing) simp_all
    then have "2 powi (- 1022) \<le> \<bar>x\<bar>" using x1 by simp
    then have "\<bar>fl x - x\<bar> \<le> \<bar>x\<bar> / 2 ^ 53" by (rule fl_error)
    then have "\<bar>fl x - x\<bar> \<le> x / 2 ^ 53" by (simp only: xabs)
    moreover have "x / 2 ^ 53 \<le> x / 2"
      using x1 by (intro divide_left_mono) simp_all
    ultimately have "x / 2 \<le> fl x" by linarith
    moreover have "(of_int n :: rat) \<le> 2 ^ 51"
      using assms(2) by (metis of_int_le_iff of_int_numeral of_int_power)
    ultimately show ?thesis using big by simp
  qed
qed

lemma fl_overflows:
  assumes "2 ^ 1025 \<le> \<bar>x\<bar>"
  shows "2 ^ 1024 \<le> \<bar>fl x\<bar>"
proof -
  have "(2::rat) powi (- 1022) \<le> 2 powi 1025"
    by (rule power_int_increasing) simp_all
  then have "2 powi (- 1022) \<le> \<bar>x\<bar>" using assms by simp
  then have "\<bar>fl x - x\<bar> \<le> \<bar>x\<bar> / 2 ^ 53" by (rule fl_error)
  moreover have "\<bar>x\<bar> / 2 ^ 53 \<le> \<bar>x\<bar> / 2"
    by (intro divide_left_mono) simp_all
  ultimately have "\<bar>x\<bar> / 2 \<le> \<bar>fl x\<bar>" by linarith
  with assms show ?thesis by simp
qed

lemma pow2_m1022_le: "1 / 20000 \<le> x \<Longrightarrow> 2 powi (- 1022) \<le> (x::rat)"
proof -
  assume "1 / 20000 \<le> x"
  moreover have "(2::rat) powi (- 1022) \<le> 2 powi (- 15)"
    by (rule power_int_increasing) simp_all
  moreover have "(2::rat) powi (- 15) \<le> 1 / 20000"
    by simp
  ultimately show ?thesis by linarith
qed

text \<open>
  The two roundings of the code, \<^verbatim>\<open>(raw / 10000) * 100\<close>, stay so close to \<open>raw / 100\<close>
  that rounding to two decimals recovers \<open>raw\<close> hundredths, as long as \<open>raw\<close> has at most
  about 15 digits.
\<close>

lemma two_roundings:
  fixes r :: rat
  assumes "1 \<le> \<bar>r\<bar>" and "\<bar>r\<bar> \<le> 2 * 10 ^ 15"
  shows "\<bar>fl (fl (r / 10000) * 100) * 100 - r\<bar> < 1 / 2"
    and "\<bar>fl (fl (r / 10000) * 100) - r / 100\<bar> \<le> \<bar>r\<bar> / 10 ^ 17"
    and "\<bar>fl (r / 10000) - r / 10000\<bar> \<le> \<bar>r\<bar> / 10 ^ 19"
proof -
  define x1 where "x1 = r / 10000"
  define q where "q = fl x1"
  define y where "y = fl (q * 100)"
  have x1: "\<bar>x1\<bar> = \<bar>r\<bar> / 10000" by (simp add: x1_def)
  have "1 / 20000 \<le> \<bar>x1\<bar>" using assms(1) by (simp add: x1)
  then have "2 powi (- 1022) \<le> \<bar>x1\<bar>" by (rule pow2_m1022_le)
  then have e1: "\<bar>q - x1\<bar> \<le> \<bar>x1\<bar> / 2 ^ 53"
    unfolding q_def by (rule fl_error)
  have "\<bar>x1\<bar> / 2 ^ 53 \<le> \<bar>x1\<bar> / 2"
    by (intro divide_left_mono) simp_all
  with e1 have "\<bar>x1\<bar> / 2 \<le> \<bar>q\<bar>" by linarith
  then have "1 / 20000 \<le> \<bar>q * 100\<bar>" using assms(1) by (simp add: x1 abs_mult)
  then have "2 powi (- 1022) \<le> \<bar>q * 100\<bar>" by (rule pow2_m1022_le)
  then have e2: "\<bar>y - q * 100\<bar> \<le> \<bar>q * 100\<bar> / 2 ^ 53"
    unfolding y_def by (rule fl_error)
  have e1': "\<bar>q - x1\<bar> * 2 ^ 53 \<le> \<bar>x1\<bar>"
    using e1 by (simp add: field_simps)
  have e2': "\<bar>y - q * 100\<bar> * 2 ^ 53 \<le> \<bar>q\<bar> * 100"
    using e2 by (simp add: field_simps abs_mult)
  have x1r: "x1 * 10000 = r" by (simp add: x1_def)
  have "\<bar>y * 100 - r\<bar> < 1 / 2"
    using e1' e2' x1r assms(2) by (simp add: abs_if split: if_splits)
  then show "\<bar>fl (fl (r / 10000) * 100) * 100 - r\<bar> < 1 / 2"
    by (simp add: y_def q_def x1_def)
  have "\<bar>y - r / 100\<bar> \<le> \<bar>r\<bar> / 10 ^ 17"
    using e1' e2' x1r by (simp add: abs_if split: if_splits)
  then show "\<bar>fl (fl (r / 10000) * 100) - r / 100\<bar> \<le> \<bar>r\<bar> / 10 ^ 17"
    by (simp add: y_def q_def x1_def)
  have "\<bar>q - x1\<bar> \<le> \<bar>r\<bar> / 10 ^ 19"
    using e1' x1r by (simp add: abs_if split: if_splits)
  then show "\<bar>fl (r / 10000) - r / 10000\<bar> \<le> \<bar>r\<bar> / 10 ^ 19"
    by (simp add: q_def x1_def)
qed

lemma int_abs_ge1: "n \<noteq> 0 \<Longrightarrow> 1 \<le> \<bar>of_int n :: rat\<bar>"
proof -
  assume "n \<noteq> 0"
  then have "1 \<le> \<bar>n\<bar>" by arith
  then have "(of_int 1 :: rat) \<le> of_int \<bar>n\<bar>" by (simp only: of_int_le_iff)
  then show ?thesis by simp
qed

lemma rat_of_int_bound: "\<bar>n\<bar> \<le> 2 * 10 ^ 15 \<Longrightarrow> \<bar>of_int n :: rat\<bar> \<le> 2 * 10 ^ 15"
proof -
  assume "\<bar>n\<bar> \<le> 2 * 10 ^ 15"
  then have "(of_int \<bar>n\<bar> :: rat) \<le> of_int (2 * 10 ^ 15)" by (simp only: of_int_le_iff)
  then show ?thesis by simp
qed

lemma rat_of_int_less: "n < 10000 \<Longrightarrow> (of_int n :: rat) \<le> 9999"
proof -
  assume "n < 10000"
  then have "n \<le> 9999" by simp
  then have "(of_int n :: rat) \<le> of_int 9999" by (simp only: of_int_le_iff)
  then show ?thesis by simp
qed

lemma py_round2_eqI:
  assumes "\<bar>z * 100 - of_int n\<bar> < 1 / 2"
  shows "py_round2 z = fl (of_int n / 100)"
  using round_half_even_eqI [OF assms] by (simp add: py_round2_def)

lemma fl_hundredth_error:
  assumes "n \<noteq> 0"
  shows "\<bar>fl (of_int n / 100) - of_int n / 100\<bar> \<le> \<bar>of_int n\<bar> / (100 * 2 ^ 53)"
proof -
  have "1 \<le> \<bar>of_int n :: rat\<bar>"
    using assms by (rule int_abs_ge1)
  then have "1 / 20000 \<le> \<bar>of_int n / 100 :: rat\<bar>" by simp
  then have "2 powi (- 1022) \<le> \<bar>of_int n / 100 :: rat\<bar>" by (rule pow2_m1022_le)
  then have "\<bar>fl (of_int n / 100) - of_int n / 100\<bar> \<le> \<bar>of_int n / 100 :: rat\<bar> / 2 ^ 53"
    by (rule fl_error)
  then show ?thesis by simp
qed

lemma py_round2_hundredths:
  assumes "\<bar>n\<bar> \<le> 2 * 10 ^ 15"
  shows "py_round2 (fl (of_int n / 100)) = fl (of_int n / 100)"
proof (cases "n = 0")
  case True
  then show ?thesis by (simp add: py_round2_def fl_def round_half_even_def)
next
  case False
  have "\<bar>of_int n :: rat\<bar> \<le> 2 * 10 ^ 15"
    using assms by (rule rat_of_int_bound)
  then have "\<bar>fl (of_int n / 100) * 100 - of_int n\<bar> < 1 / 2"
    using fl_hundredth_error [OF False] by (simp add: abs_if field_simps split: if_splits)
  then show ?thesis by (rule py_round2_eqI)
qed

section \<open>Properties of the score\<close>

lemma dict_get_int_field:
  "int_field d k = Some n \<Longrightarrow> dict_get d k (JInt 0) = Inr (JInt n)"
  by (auto simp: int_field_def dict_get_def split: json.splits option.splits)

lemma sum_field_ints:
  "total_of k repos = Some s \<Longrightarrow> sum_field k repos (JInt acc) = Inr (JInt (acc + s))"
proof (induction repos arbitrary: acc s)
  case Nil
  then show ?case by simp
next
  case (Cons repo repos)
  from Cons.prems obtain n m where n: "int_field repo k = Some n"
    and m: "total_of k repos = Some m" and s: "s = n + m"
    by (auto split: option.splits)
  show ?case
    using Cons.IH [OF m, of "acc + n"]
    by (simp add: dict_get_int_field [OF n] and_then_def s)
qed

lemma sum_over_ints:
  "total_of k repos = Some s \<Longrightarrow> sum_over k (JArr repos) = Inr (JInt s)"
  using sum_field_ints [of k repos s 0] by (simp add: sum_over_def and_then_def)

lemma calculate_gitworth_ints:
  assumes "int_field profile_data ''followers'' = Some f"
    and "int_field profile_data ''public_repos'' = Some p"
    and "total_of ''stargazers_count'' repos = Some s"
    and "total_of ''forks_count'' repos = Some t"
  shows "calculate_gitworth profile_data (JArr repos) =
           score_of_raw (f * 3 + p * 2 + s * 4 + t * 1)"
  by (simp only: calculate_gitworth_def dict_get_int_field [OF assms(1)]
      dict_get_int_field [OF assms(2)] sum_over_ints [OF assms(3)]
      sum_over_ints [OF assms(4)] and_then_def sum.case py_mul.simps py_add.simps
      score_of_raw_def)

lemma weighted_sum: "f * 3 + p * 2 + s * 4 + t * 1 = 3 * f + 2 * p + 4 * s + (t::int)"
  by simp

lemma score_of_raw_zero: "score_of_raw 0 = Inr (JFloat (Fin 0))"
  by (simp add: score_of_raw_def MAX_POSSIBLE_SCORE_def and_then_def fl_def to_float_def
      normalized_score_def py_round2_def round_half_even_def)

lemma score_of_raw_small:
  assumes "\<bar>raw\<bar> \<le> 2 * 10 ^ 15" and "raw < 10000"
  shows "score_of_raw raw = Inr (JFloat (Fin (fl (of_int raw / 100))))"
proof (cases "raw = 0")
  case True
  then show ?thesis by (simp add: score_of_raw_zero fl_def)
next
  case False
  define r :: rat where "r = of_int raw"
  define q where "q = fl (r / 10000)"
  define y where "y = fl (q * 100)"
  have r1: "1 \<le> \<bar>r\<bar>"
    using False unfolding r_def by (rule int_abs_ge1)
  have r2: "\<bar>r\<bar> \<le> 2 * 10 ^ 15"
    unfolding r_def using assms(1) by (rule rat_of_int_bound)
  have r3: "r \<le> 9999"
    unfolding r_def using assms(2) by (rule rat_of_int_less)
  note tr = two_roundings [OF r1 r2, folded q_def, folded y_def]
  have big: "(3 * 10 ^ 15 :: rat) < 2 ^ 1024" by simp
  have "\<bar>q\<bar> \<le> \<bar>r\<bar> / 10000 + \<bar>r\<bar> / 10 ^ 19"
    using tr(3) by (simp add: abs_if split: if_splits)
  then have "\<bar>q\<bar> \<le> 3 * 10 ^ 15" using r2 by simp
  then have qsmall: "\<bar>q\<bar> < 2 ^ 1024" using big by linarith
  have "\<bar>y\<bar> \<le> \<bar>r\<bar> / 100 + \<bar>r\<bar> / 10 ^ 17"
    using tr(2) by (simp add: abs_if split: if_splits)
  then have "\<bar>y\<bar> \<le> 3 * 10 ^ 15" using r2 by simp
  then have ysmall: "\<bar>y\<bar> < 2 ^ 1024" using big by linarith
  have ylt: "y < 100"
    using tr(2) r2 r3 by (simp add: abs_if split: if_splits)
  have div: "py_truediv (JInt raw) MAX_POSSIBLE_SCORE = Inr (Fin q)"
    using qsmall by (simp add: MAX_POSSIBLE_SCORE_def q_def r_def Let_def)
  have mul: "float_mul_int (Fin q) 100 = Fin y"
    using ysmall by (simp add: to_float_def y_def Let_def abs_if split: if_splits)
  have "\<bar>y * 100 - of_int raw\<bar> < 1 / 2"
    using tr(1) by (simp only: r_def)
  then have rnd: "py_round2 y = fl (of_int raw / 100)"
    by (rule py_round2_eqI)
  have "score_of_raw raw = Inr (normalized_score (Fin y))"
    by (simp only: score_of_raw_def div and_then_def sum.case mul)
  then show ?thesis
    using ylt by (simp add: normalized_score_def rnd)
qed

lemma score_of_raw_saturated:
  assumes "10000 \<le> raw" and "raw < raw_score_limit"
  shows "score_of_raw raw = Inr (JInt 100)"
proof -
  define x :: rat where "x = of_int raw / 10000"
  define q where "q = fl x"
  define y where "y = fl (q * 100)"
  have "(of_int 10000 :: rat) \<le> of_int raw"
    using assms(1) by (simp only: of_int_le_iff)
  then have x1: "of_int 1 \<le> x" by (simp add: x_def)
  have "(of_int raw :: rat) < of_int raw_score_limit"
    using assms(2) by (simp only: of_int_less_iff)
  then have "x < 2 ^ 1024 - 2 ^ 970"
    by (simp add: x_def raw_score_limit_def)
  then have "\<bar>x\<bar> < 2 ^ 1024 - 2 ^ 970" using x1 by simp
  then have qsmall: "\<bar>q\<bar> < 2 ^ 1024" unfolding q_def by (rule fl_in_range)
  have "of_int 1 \<le> q"
    unfolding q_def using x1 by (intro fl_ge_int) simp_all
  then have "of_int 100 \<le> q * 100" by simp
  then have "of_int 100 \<le> y"
    unfolding y_def by (intro fl_ge_int) simp_all
  then have y100: "100 \<le> y" by simp
  have div: "py_truediv (JInt raw) MAX_POSSIBLE_SCORE = Inr (Fin q)"
    using qsmall by (simp add: MAX_POSSIBLE_SCORE_def q_def x_def Let_def)
  have mul: "float_mul_int (Fin q) 100 = PosInf \<or> float_mul_int (Fin q) 100 = Fin y"
    using y100 by (simp add: to_float_def y_def Let_def)
  have "score_of_raw raw = Inr (normalized_score (float_mul_int (Fin q) 100))"
    by (simp only: score_of_raw_def div and_then_def sum.case)
  then show ?thesis
    using mul y100 by (auto simp add: normalized_score_def)
qed

lemma round_half_even_ge_half:
  assumes "even n" and "of_int n - 1 / 2 \<le> z"
  shows "n \<le> round_half_even z"
proof (cases "of_int n \<le> z")
  case True
  then show ?thesis by (rule round_half_even_ge)
next
  case False
  then have fl: "\<lfloor>z\<rfloor> = n - 1"
    using assms(2) by (intro floor_unique) simp_all
  then have odd: "\<not> even \<lfloor>z\<rfloor>" using assms(1) by simp
  have d: "\<not> z - of_int \<lfloor>z\<rfloor> < 1 / 2"
    using assms(2) by (simp add: fl)
  show ?thesis
    using d odd by (simp add: round_half_even_def Let_def fl)
qed

lemma fl_overflow_threshold:
  assumes "2 ^ 1024 - 2 ^ 970 \<le> x"
  shows "2 ^ 1024 \<le> fl x"
proof -
  have "(2::rat) ^ 1023 \<le> 2 ^ 1024 - 2 ^ 970" by simp
  then have x1023: "2 ^ 1023 \<le> x" using assms by linarith
  then have x0: "x \<noteq> 0" and xabs: "\<bar>x\<bar> = x" and xpos: "0 < x" by simp_all
  have "2 powi 1023 \<le> \<bar>x\<bar>" using x1023 xabs by simp
  then have e: "1023 \<le> ilog2 x" by (rule ilog2_ge)
  then have u: "ulp x = 2 powi (ilog2 x - 52)"
    by (simp add: ulp_def max_def)
  have up: "0 < ulp x" by (rule ulp_pos)
  show ?thesis
  proof (cases "ilog2 x = 1023")
    case True
    then have u971: "ulp x = 2 ^ 971" by (simp add: u)
    have "(2 ^ 1024 - 2 ^ 970) / 2 ^ 971 \<le> x / (2 ^ 971 :: rat)"
      using assms by (intro divide_right_mono) simp_all
    moreover have "(2 ^ 1024 - 2 ^ 970) / 2 ^ 971 = (of_int (2 ^ 53) :: rat) - 1 / 2"
      by simp
    ultimately have "of_int (2 ^ 53) - 1 / 2 \<le> x / ulp x"
      by (simp only: u971)
    then have "2 ^ 53 \<le> round_half_even (x / ulp x)"
      by (intro round_half_even_ge_half) simp_all
    then have "(of_int (2 ^ 53) :: rat) \<le> of_int (round_half_even (x / ulp x))"
      by (simp only: of_int_le_iff)
    then have "(of_int (2 ^ 53) :: rat) * 2 ^ 971 \<le> of_int (round_half_even (x / ulp x)) * 2 ^ 971"
      by (intro mult_right_mono) simp_all
    then show ?thesis using x0 by (simp add: fl_def u971)
  next
    case False
    then have e1024: "1024 \<le> ilog2 x" using e by simp
    have "of_int (2 ^ 52) * ulp x = (2::rat) powi 52 * 2 powi (ilog2 x - 52)"
      by (simp add: u)
    also have "\<dots> = 2 powi (52 + (ilog2 x - 52))"
      by (rule power_int_add [symmetric]) simp
    also have "\<dots> = 2 powi (ilog2 x)"
      by simp
    finally have m: "of_int (2 ^ 52) * ulp x = (2::rat) powi (ilog2 x)" .
    have "of_int (2 ^ 52) * ulp x \<le> x"
      using ilog2_bounds(1) [OF x0] by (simp only: m xabs)
    then have "of_int (2 ^ 52) \<le> x / ulp x"
      using up by (simp add: pos_le_divide_eq)
    then have "2 ^ 52 \<le> round_half_even (x / ulp x)"
      by (rule round_half_even_ge)
    then have "(of_int (2 ^ 52) :: rat) \<le> of_int (round_half_even (x / ulp x))"
      by (simp only: of_int_le_iff)
    then have "(of_int (2 ^ 52) :: rat) * ulp x \<le> of_int (round_half_even (x / ulp x)) * ulp x"
      using up by (intro mult_right_mono) simp_all
    then have "2 powi (ilog2 x) \<le> fl x"
      using x0 by (simp only: m fl_def if_False)
    moreover have "(2::rat) powi 1024 \<le> 2 powi (ilog2 x)"
      using e1024 by (rule power_int_increasing) simp
    ultimately show ?thesis by simp
  qed
qed

lemma score_of_raw_overflow:
  assumes "raw_score_limit \<le> raw"
  shows "score_of_raw raw = Inl OverflowError"
proof -
  have "(of_int raw_score_limit :: rat) \<le> of_int raw"
    using assms by (simp only: of_int_le_iff)
  then have "2 ^ 1024 - 2 ^ 970 \<le> (of_int raw :: rat) / 10000"
    by (simp add: raw_score_limit_def)
  then have "2 ^ 1024 \<le> fl (of_int raw / 10000)"
    by (rule fl_overflow_threshold)
  then have "py_truediv (JInt raw) MAX_POSSIBLE_SCORE = Inl OverflowError"
    by (simp add: MAX_POSSIBLE_SCORE_def Let_def)
  then show ?thesis
    by (simp only: score_of_raw_def and_then_def sum.case)
qed

lemma fl_hundredth_bound:
  "\<bar>fl (of_int n / 100) - of_int n / 100\<bar> \<le> \<bar>of_int n\<bar> / (100 * 2 ^ 53)"
proof (cases "n = 0")
  case True
  then show ?thesis by (simp add: fl_def)
next
  case False
  then show ?thesis by (rule fl_hundredth_error)
qed

lemma fl_hundredths_mono:
  assumes "\<bar>a\<bar> \<le> 2 * 10 ^ 15" and "\<bar>b\<bar> \<le> 2 * 10 ^ 15" and "a \<le> b"
  shows "fl (of_int a / 100) \<le> fl (of_int b / 100)"
proof (cases "a = b")
  case True
  then show ?thesis by simp
next
  case False
  then have "a + 1 \<le> b" using assms(3) by simp
  then have "(of_int (a + 1) :: rat) \<le> of_int b" by (simp only: of_int_le_iff)
  then have ab: "(of_int a :: rat) + 1 \<le> of_int b" by simp
  have a: "\<bar>of_int a :: rat\<bar> \<le> 2 * 10 ^ 15" using assms(1) by (rule rat_of_int_bound)
  have b: "\<bar>of_int b :: rat\<bar> \<le> 2 * 10 ^ 15" using assms(2) by (rule rat_of_int_bound)
  define x :: rat where "x = of_int a"
  define y :: rat where "y = of_int b"
  define u where "u = fl (x / 100)"
  define v where "v = fl (y / 100)"
  have "\<bar>u - x / 100\<bar> \<le> \<bar>x\<bar> / (100 * 2 ^ 53)" "\<bar>v - y / 100\<bar> \<le> \<bar>y\<bar> / (100 * 2 ^ 53)"
    unfolding u_def v_def x_def y_def by (rule fl_hundredth_bound)+
  moreover have "x + 1 \<le> y" "\<bar>x\<bar> \<le> 2 * 10 ^ 15" "\<bar>y\<bar> \<le> 2 * 10 ^ 15"
    using ab a b by (simp_all only: x_def y_def)
  ultimately have "u \<le> v"
    by (simp add: abs_if field_simps split: if_splits)
  then show ?thesis by (simp only: u_def v_def x_def y_def)
qed

lemma fl_hundredths_less_100:
  assumes "0 \<le> n" and "n < 10000"
  shows "fl (of_int n / 100) < 100"
proof -
  have "(of_int 0 :: rat) \<le> of_int n" using assms(1) by (simp only: of_int_le_iff)
  moreover have "(of_int n :: rat) \<le> 9999" using assms(2) by (rule rat_of_int_less)
  ultimately show ?thesis
    using fl_hundredth_bound [of n] by (simp add: abs_if field_simps split: if_splits)
qed

lemma fl_hundredths_negative:
  assumes "n < 0"
  shows "fl (of_int n / 100) < 0"
proof -
  have "(of_int n :: rat) < of_int 0" using assms by (simp only: of_int_less_iff)
  then show ?thesis
    using fl_hundredth_bound [of n] by (simp add: abs_if field_simps split: if_splits)
qed

lemma spec_score_saturated:
  assumes "10000 \<le> raw"
  shows "spec_score raw = 100"
proof -
  have "(of_int 10000 :: rat) \<le> of_int raw" using assms by (simp only: of_int_le_iff)
  then have "of_int 100 \<le> (of_int raw :: rat) / 100" by simp
  then have "of_int 100 \<le> fl (of_int raw / 100)"
    by (intro fl_ge_int) simp_all
  then have "of_int 10000 \<le> fl (of_int raw / 100) * 100" by simp
  then have "10000 \<le> round_half_even (fl (of_int raw / 100) * 100)"
    by (rule round_half_even_ge)
  then have "(of_int 10000 :: rat) \<le> of_int (round_half_even (fl (of_int raw / 100) * 100))"
    by (simp only: of_int_le_iff)
  then have "of_int 100 \<le> (of_int (round_half_even (fl (of_int raw / 100) * 100)) :: rat) / 100"
    by simp
  then have "of_int 100 \<le> py_round2 (fl (of_int raw / 100))"
    unfolding py_round2_def by (intro fl_ge_int) simp_all
  then show ?thesis by (simp add: spec_score_def)
qed

lemma spec_score_small:
  assumes "0 \<le> raw" and "raw < 10000"
  shows "spec_score raw = fl (of_int raw / 100)"
proof -
  have "\<bar>raw\<bar> \<le> 2 * 10 ^ 15" using assms by simp
  then have "py_round2 (fl (of_int raw / 100)) = fl (of_int raw / 100)"
    by (rule py_round2_hundredths)
  then show ?thesis
    using fl_hundredths_less_100 [OF assms] by (simp add: spec_score_def)
qed

text \<open>What the score is, as a number, on a non-negative raw score below the limit.\<close>

lemma score_of_raw_spec:
  assumes "0 \<le> raw" and "raw < raw_score_limit"
  shows "\<exists>score. score_of_raw raw = Inr score \<and> number_of score = spec_score raw"
proof (cases "raw < 10000")
  case True
  have "\<bar>raw\<bar> \<le> 2 * 10 ^ 15" using assms(1) True by simp
  then have "score_of_raw raw = Inr (JFloat (Fin (fl (of_int raw / 100))))"
    using True by (rule score_of_raw_small)
  then show ?thesis
    using spec_score_small [OF assms(1) True] by simp
next
  case False
  then have big: "10000 \<le> raw" by simp
  then have "score_of_raw raw = Inr (JInt 100)"
    using assms(2) by (rule score_of_raw_saturated)
  then show ?thesis
    using spec_score_saturated [OF big] by simp
qed

lemma spec_score_mono:
  assumes "0 \<le> raw" and "raw \<le> raw'"
  shows "spec_score raw \<le> spec_score raw'"
proof (cases "raw' < 10000")
  case True
  then have small: "raw < 10000" using assms(2) by simp
  have pos: "0 \<le> raw'" using assms by simp
  have "\<bar>raw\<bar> \<le> 2 * 10 ^ 15" "\<bar>raw'\<bar> \<le> 2 * 10 ^ 15"
    using assms True by simp_all
  then have "fl (of_int raw / 100) \<le> fl (of_int raw' / 100)"
    using assms(2) by (rule fl_hundredths_mono)
  then show ?thesis
    by (simp only: spec_score_small [OF assms(1) small] spec_score_small [OF pos True])
next
  case False
  then have "spec_score raw' = 100" by (intro spec_score_saturated) simp
  then show ?thesis by (simp add: spec_score_def)
qed

lemma score_of_raw_returns:
  assumes "- raw_score_limit < raw" and "raw < raw_score_limit"
  shows "\<exists>score. score_of_raw raw = Inr score"
proof -
  have "(of_int (- raw_score_limit) :: rat) < of_int raw" "(of_int raw :: rat) < of_int raw_score_limit"
    using assms by (simp_all only: of_int_less_iff)
  then have "\<bar>of_int raw / 10000 :: rat\<bar> < 2 ^ 1024 - 2 ^ 970"
    by (simp add: raw_score_limit_def abs_if)
  then have "\<bar>fl (of_int raw / 10000)\<bar> < 2 ^ 1024"
    by (rule fl_in_range)
  then have "py_truediv (JInt raw) MAX_POSSIBLE_SCORE = Inr (Fin (fl (of_int raw / 10000)))"
    by (simp add: MAX_POSSIBLE_SCORE_def Let_def)
  then show ?thesis
    by (simp only: score_of_raw_def and_then_def sum.case) blast
qed

text \<open>
  C2, as the code has it. For non-negative integers \<open>f\<close> (followers), \<open>p\<close> (public
  repositories), \<open>s\<close> (stars summed over the repository list) and \<open>t\<close> (forks summed
  likewise), a missing field counting as 0, and a raw score \<open>3f + 2p + 4s + t\<close> below
  \<open>raw_score_limit\<close>, \<open>calculate_gitworth\<close> returns a score, and that score is
  \<open>min(100, round((3f + 2p + 4s + t) / 100, 2))\<close>.
\<close>

theorem calculate_gitworth_formula:
  assumes "int_field profile_data ''followers'' = Some f"
    and "int_field profile_data ''public_repos'' = Some p"
    and "total_of ''stargazers_count'' repos = Some s"
    and "total_of ''forks_count'' repos = Some t"
    and "0 \<le> f" and "0 \<le> p" and "0 \<le> s" and "0 \<le> t"
    and "3 * f + 2 * p + 4 * s + t < raw_score_limit"
  shows "\<exists>score. calculate_gitworth profile_data (JArr repos) = Inr score \<and>
           number_of score = spec_score (3 * f + 2 * p + 4 * s + t)"
proof -
  have "calculate_gitworth profile_data (JArr repos) = score_of_raw (3 * f + 2 * p + 4 * s + t)"
    using calculate_gitworth_ints [OF assms(1-4)] by (simp only: weighted_sum)
  moreover have "0 \<le> 3 * f + 2 * p + 4 * s + t"
    using assms(5-8) by simp
  ultimately show ?thesis
    using score_of_raw_spec [OF _ assms(9)] by simp
qed

theorem calculate_gitworth_formula_witness:
  "\<exists>score.
     calculate_gitworth
       (JObj [(''followers'', JInt 100), (''public_repos'', JInt 20)])
       (JArr [JObj [(''stargazers_count'', JInt 50), (''forks_count'', JInt 10)],
              JObj [(''stargazers_count'', JInt 25), (''forks_count'', JInt 5)]]) = Inr score \<and>
     number_of score = spec_score (3 * 100 + 2 * 20 + 4 * 75 + 15)"
  using calculate_gitworth_formula
    [of "JObj [(''followers'', JInt 100), (''public_repos'', JInt 20)]" 100 20
        "[JObj [(''stargazers_count'', JInt 50), (''forks_count'', JInt 10)],
          JObj [(''stargazers_count'', JInt 25), (''forks_count'', JInt 5)]]" 75 15]
  by (simp add: int_field_def raw_score_limit_def)

text \<open>
  C2 as stated, for all non-negative integers, fails: with \<open>10 ^ 400\<close> followers the
  division \<^verbatim>\<open>raw_score / MAX_POSSIBLE_SCORE\<close> raises \<^verbatim>\<open>OverflowError\<close>, and no score is returned.
\<close>

theorem formula_fails_on_huge_followers:
  "calculate_gitworth (JObj [(''followers'', JInt (10 ^ 400))]) (JArr []) = Inl OverflowError"
proof -
  have "calculate_gitworth (JObj [(''followers'', JInt (10 ^ 400))]) (JArr []) =
          score_of_raw (10 ^ 400 * 3 + 0 * 2 + 0 * 4 + 0 * 1)"
    by (rule calculate_gitworth_ints) (simp_all add: int_field_def)
  also have "\<dots> = Inl OverflowError"
    by (rule score_of_raw_overflow) (simp add: raw_score_limit_def)
  finally show ?thesis .
qed

text \<open>
  C7, as the code has it. For non-negative integer inputs whose raw score
  \<open>3f + 2p + 4s + t\<close> is at least 10000 and below \<open>raw_score_limit\<close>, \<open>calculate_gitworth\<close>
  returns exactly 100.
\<close>

theorem calculate_gitworth_saturates:
  assumes "int_field profile_data ''followers'' = Some f"
    and "int_field profile_data ''public_repos'' = Some p"
    and "total_of ''stargazers_count'' repos = Some s"
    and "total_of ''forks_count'' repos = Some t"
    and "0 \<le> f" and "0 \<le> p" and "0 \<le> s" and "0 \<le> t"
    and "10000 \<le> 3 * f + 2 * p + 4 * s + t"
    and "3 * f + 2 * p + 4 * s + t < raw_score_limit"
  shows "calculate_gitworth profile_data (JArr repos) = Inr (JInt 100)"
proof -
  have "calculate_gitworth profile_data (JArr repos) = score_of_raw (3 * f + 2 * p + 4 * s + t)"
    using calculate_gitworth_ints [OF assms(1-4)] by (simp only: weighted_sum)
  then show ?thesis
    using score_of_raw_saturated [OF assms(9,10)] by simp
qed

theorem calculate_gitworth_saturates_witness:
  "calculate_gitworth (JObj [(''followers'', JInt 4000)])
     (JArr [JObj [(''stargazers_count'', JInt 3)]]) = Inr (JInt 100)"
  using calculate_gitworth_saturates
    [of "JObj [(''followers'', JInt 4000)]" 4000 0 "[JObj [(''stargazers_count'', JInt 3)]]" 3 0]
  by (simp add: int_field_def raw_score_limit_def)

text \<open>
  C7 as stated, for every raw score from 10000 on, fails: a repository with \<open>10 ^ 400\<close>
  stars has a raw score above 10000, and the call raises \<^verbatim>\<open>OverflowError\<close> instead of
  returning 100.
\<close>

theorem saturation_fails_on_huge_stars:
  "calculate_gitworth (JObj []) (JArr [JObj [(''stargazers_count'', JInt (10 ^ 400))]]) =
     Inl OverflowError"
proof -
  have "calculate_gitworth (JObj []) (JArr [JObj [(''stargazers_count'', JInt (10 ^ 400))]]) =
          score_of_raw (0 * 3 + 0 * 2 + 10 ^ 400 * 4 + 0 * 1)"
    by (rule calculate_gitworth_ints) (simp_all add: int_field_def)
  also have "\<dots> = Inl OverflowError"
    by (rule score_of_raw_overflow) (simp add: raw_score_limit_def)
  finally show ?thesis .
qed

text \<open>
  C8, as the code has it. For non-negative integer inputs, raising followers, public
  repositories, total stars or total forks (any of them, the others held or raised too)
  never lowers the score, as long as the raised raw score stays below \<open>raw_score_limit\<close>.
\<close>

theorem calculate_gitworth_monotone:
  assumes "int_field profile_data ''followers'' = Some f"
    and "int_field profile_data ''public_repos'' = Some p"
    and "total_of ''stargazers_count'' repos = Some s"
    and "total_of ''forks_count'' repos = Some t"
    and "int_field profile_data' ''followers'' = Some f'"
    and "int_field profile_data' ''public_repos'' = Some p'"
    and "total_of ''stargazers_count'' repos' = Some s'"
    and "total_of ''forks_count'' repos' = Some t'"
    and "0 \<le> f" and "0 \<le> p" and "0 \<le> s" and "0 \<le> t"
    and "f \<le> f'" and "p \<le> p'" and "s \<le> s'" and "t \<le> t'"
    and "3 * f' + 2 * p' + 4 * s' + t' < raw_score_limit"
  shows "\<exists>score score'.
           calculate_gitworth profile_data (JArr repos) = Inr score \<and>
           calculate_gitworth profile_data' (JArr repos') = Inr score' \<and>
           number_of score \<le> number_of score'"
proof -
  define raw where "raw = 3 * f + 2 * p + 4 * s + t"
  define raw' where "raw' = 3 * f' + 2 * p' + 4 * s' + t'"
  have le: "raw \<le> raw'"
    unfolding raw_def raw'_def using assms(13-16) by linarith
  have pos: "0 \<le> raw"
    unfolding raw_def using assms(9-12) by simp
  have pos': "0 \<le> raw'" using pos le by simp
  have lim': "raw' < raw_score_limit"
    unfolding raw'_def by (rule assms(17))
  have lim: "raw < raw_score_limit" using le lim' by simp
  have cg: "calculate_gitworth profile_data (JArr repos) = score_of_raw raw"
    using calculate_gitworth_ints [OF assms(1-4)] by (simp only: weighted_sum raw_def)
  have cg': "calculate_gitworth profile_data' (JArr repos') = score_of_raw raw'"
    using calculate_gitworth_ints [OF assms(5-8)] by (simp only: weighted_sum raw'_def)
  obtain score where score: "score_of_raw raw = Inr score" "number_of score = spec_score raw"
    using score_of_raw_spec [OF pos lim] by blast
  obtain score' where score': "score_of_raw raw' = Inr score'" "number_of score' = spec_score raw'"
    using score_of_raw_spec [OF pos' lim'] by blast
  have "number_of score \<le> number_of score'"
    using spec_score_mono [OF pos le] by (simp only: score(2) score'(2))
  then show ?thesis
    using cg cg' score(1) score'(1) by simp
qed

theorem calculate_gitworth_monotone_witness:
  "\<exists>score score'.
     calculate_gitworth (JObj [(''followers'', JInt 100), (''public_repos'', JInt 20)])
       (JArr [JObj [(''stargazers_count'', JInt 50)]]) = Inr score \<and>
     calculate_gitworth (JObj [(''followers'', JInt 101), (''public_repos'', JInt 20)])
       (JArr [JObj [(''stargazers_count'', JInt 50)]]) = Inr score' \<and>
     number_of score \<le> number_of score'"
  using calculate_gitworth_monotone
    [of "JObj [(''followers'', JInt 100), (''public_repos'', JInt 20)]" 100 20
        "[JObj [(''stargazers_count'', JInt 50)]]" 50 0
        "JObj [(''followers'', JInt 101), (''public_repos'', JInt 20)]" 101 20
        "[JObj [(''stargazers_count'', JInt 50)]]" 50 0]
  by (simp add: int_field_def raw_score_limit_def)

text \<open>
  C8 as stated, for all non-negative integers, fails: 4000 followers alone score 100, and
  raising the followers to \<open>10 ^ 400\<close>, everything else held, makes the call raise
  \<^verbatim>\<open>OverflowError\<close>: no score is returned, where the claim has one that is at least 100.
\<close>

theorem monotonicity_fails_on_huge_followers:
  "calculate_gitworth (JObj [(''followers'', JInt 4000), (''public_repos'', JInt 20)])
     (JArr []) = Inr (JInt 100) \<and>
   calculate_gitworth (JObj [(''followers'', JInt (10 ^ 400)), (''public_repos'', JInt 20)])
     (JArr []) = Inl OverflowError"
proof
  have "calculate_gitworth (JObj [(''followers'', JInt 4000), (''public_repos'', JInt 20)])
          (JArr []) = score_of_raw (4000 * 3 + 20 * 2 + 0 * 4 + 0 * 1)"
    by (rule calculate_gitworth_ints) (simp_all add: int_field_def)
  also have "\<dots> = Inr (JInt 100)"
    by (rule score_of_raw_saturated) (simp_all add: raw_score_limit_def)
  finally show "calculate_gitworth (JObj [(''followers'', JInt 4000), (''public_repos'', JInt 20)])
     (JArr []) = Inr (JInt 100)" .
  have "calculate_gitworth (JObj [(''followers'', JInt (10 ^ 400)), (''public_repos'', JInt 20)])
          (JArr []) = score_of_raw (10 ^ 400 * 3 + 20 * 2 + 0 * 4 + 0 * 1)"
    by (rule calculate_gitworth_ints) (simp_all add: int_field_def)
  also have "\<dots> = Inl OverflowError"
    by (rule score_of_raw_overflow) (simp add: raw_score_limit_def)
  finally show "calculate_gitworth
     (JObj [(''followers'', JInt (10 ^ 400)), (''public_repos'', JInt 20)])
     (JArr []) = Inl OverflowError" .
qed

text \<open>
  C9, as the code has it. For integer inputs whose raw weighted sum is negative and not
  below \<open>- 2 * 10 ^ 15\<close>, \<open>calculate_gitworth\<close> returns \<open>round(raw_score / 100, 2)\<close> as it
  is: a value below 0, not clamped at 0.
\<close>

theorem calculate_gitworth_negative_unclamped:
  assumes "int_field profile_data ''followers'' = Some f"
    and "int_field profile_data ''public_repos'' = Some p"
    and "total_of ''stargazers_count'' repos = Some s"
    and "total_of ''forks_count'' repos = Some t"
    and "3 * f + 2 * p + 4 * s + t < 0"
    and "- (2 * 10 ^ 15) \<le> 3 * f + 2 * p + 4 * s + t"
  shows "calculate_gitworth profile_data (JArr repos) =
           Inr (JFloat (Fin (py_round2 (fl (of_int (3 * f + 2 * p + 4 * s + t) / 100))))) \<and>
         py_round2 (fl (of_int (3 * f + 2 * p + 4 * s + t) / 100)) < 0"
proof -
  define raw where "raw = 3 * f + 2 * p + 4 * s + t"
  have neg: "raw < 0" unfolding raw_def by (rule assms(5))
  have "- (2 * 10 ^ 15) \<le> raw" unfolding raw_def by (rule assms(6))
  then have bound: "\<bar>raw\<bar> \<le> 2 * 10 ^ 15" using neg by simp
  have small: "raw < 10000" using neg by simp
  have cg: "calculate_gitworth profile_data (JArr repos) = score_of_raw raw"
    using calculate_gitworth_ints [OF assms(1-4)] by (simp only: weighted_sum raw_def)
  have rnd: "py_round2 (fl (of_int raw / 100)) = fl (of_int raw / 100)"
    using bound by (rule py_round2_hundredths)
  have "calculate_gitworth profile_data (JArr repos) =
          Inr (JFloat (Fin (py_round2 (fl (of_int raw / 100))))) \<and>
        py_round2 (fl (of_int raw / 100)) < 0"
    using score_of_raw_small [OF bound small] fl_hundredths_negative [OF neg]
    by (simp only: cg rnd simp_thms)
  then show ?thesis by (simp only: raw_def)
qed

theorem calculate_gitworth_negative_unclamped_witness:
  "calculate_gitworth (JObj [(''followers'', JInt (- 7))]) (JArr []) =
     Inr (JFloat (Fin (py_round2 (fl (of_int (3 * (- 7) + 2 * 0 + 4 * 0 + 0) / 100))))) \<and>
   py_round2 (fl (of_int (3 * (- 7) + 2 * 0 + 4 * 0 + 0) / 100)) < 0"
  using calculate_gitworth_negative_unclamped [of "JObj [(''followers'', JInt (- 7))]" "- 7" 0 "[]" 0 0]
  by (simp add: int_field_def)

text \<open>The steps of the code, and the formula, on a raw score of sixteen digits.\<close>

lemma large_negative_quotient:
  "py_truediv (JInt (- 8801261148999996)) MAX_POSSIBLE_SCORE =
     Inr (Fin (- (7209993133260797 / 8192)))"
  by code_simp

lemma large_negative_product:
  "float_mul_int (Fin (- (7209993133260797 / 8192))) 100 = Fin (- (2816403567679999 / 32))"
  by code_simp

lemma large_negative_rounded:
  "normalized_score (Fin (- (2816403567679999 / 32))) =
     JFloat (Fin (- (2816403567679999 / 32)))"
  by code_simp

lemma large_negative_formula:
  "py_round2 (fl (of_int (- 8801261148999996) / 100)) = - (5632807135359997 / 64)"
  by code_simp

text \<open>
  C9 as stated, for every negative raw sum, fails: one repository with
  \<open>- 8801261148999996\<close> forks gives the float \<open>- 2816403567679999 / 32\<close>, printed
  \<^verbatim>\<open>-88012611489999.97\<close>, where \<open>round(raw_score / 100, 2)\<close> is \<open>- 5632807135359997 / 64\<close>,
  printed \<^verbatim>\<open>-88012611489999.95\<close>. The code divides by 10000 and multiplies by 100, and the
  two roundings do not add up to the one of the division by 100.
\<close>

theorem negative_score_differs_from_formula:
  "calculate_gitworth (JObj [])
     (JArr [JObj [(''forks_count'', JInt (- 8801261148999996))]]) =
     Inr (JFloat (Fin (- (2816403567679999 / 32)))) \<and>
   py_round2 (fl (of_int (- 8801261148999996) / 100)) = - (5632807135359997 / 64) \<and>
   calculate_gitworth (JObj [])
     (JArr [JObj [(''forks_count'', JInt (- 8801261148999996))]]) \<noteq>
     Inr (JFloat (Fin (py_round2 (fl (of_int (- 8801261148999996) / 100)))))"
proof -
  have "calculate_gitworth (JObj [])
          (JArr [JObj [(''forks_count'', JInt (- 8801261148999996))]]) =
          score_of_raw (0 * 3 + 0 * 2 + 0 * 4 + (- 8801261148999996) * 1)"
    by (rule calculate_gitworth_ints) (simp_all add: int_field_def)
  also have "\<dots> = score_of_raw (- 8801261148999996)"
    by simp
  also have "\<dots> = Inr (JFloat (Fin (- (2816403567679999 / 32))))"
    by (simp only: score_of_raw_def large_negative_quotient and_then_def sum.case
        large_negative_product large_negative_rounded)
  finally have code: "calculate_gitworth (JObj [])
     (JArr [JObj [(''forks_count'', JInt (- 8801261148999996))]]) =
     Inr (JFloat (Fin (- (2816403567679999 / 32))))" .
  have "(- (2816403567679999 / 32) :: rat) \<noteq> - (5632807135359997 / 64)"
    by simp
  then show ?thesis
    by (simp only: code large_negative_formula sum.inject json.inject pyfloat.inject
        simp_thms)
qed

section \<open>Properties of the handler\<close>

text \<open>When both calls return, the outcome is the branch on the two status codes.\<close>

lemma get_profile_returns:
  assumes "upstream (GITHUB_API_URL @ username) = Returns profile_status profile_body"
    and "upstream (GITHUB_REPOS_URL_format username) = Returns repos_status repos_body"
  shows "fst (get_profile upstream username s) =
           (if profile_status = 200 \<and> repos_status = 200
              then both_ok profile_body repos_body
            else if profile_status = 403
              then Inr (error_response ''GitHub API rate limit exceeded. Try again later.'' 403)
            else Inr (error_response ''User not found'' 404))"
  using assms by (simp add: get_profile_def requests_get_def)

lemma example_urls:
  "GITHUB_API_URL @ ''octocat'' = ''https://api.github.com/users/octocat''"
  "GITHUB_REPOS_URL_format ''octocat'' = ''https://api.github.com/users/octocat/repos''"
  by (simp_all add: GITHUB_API_URL_def GITHUB_REPOS_URL_format_def)

text \<open>
  C3. Whenever the profile fetch returns status 403, the handler returns the error record
  \<^verbatim>\<open>{"error": "GitHub API rate limit exceeded. Try again later."}\<close> with status 403,
  whatever status and body the repositories fetch returns.
\<close>

theorem profile_rate_limit_gives_403:
  assumes "upstream (GITHUB_API_URL @ username) = Returns 403 profile_body"
    and "upstream (GITHUB_REPOS_URL_format username) = Returns repos_status repos_body"
  shows "fst (get_profile upstream username s) =
           Inr \<lparr>body = JObj [(''error'', JStr ''GitHub API rate limit exceeded. Try again later.'')],
                status_code = 403\<rparr>"
  using get_profile_returns [OF assms] by (simp add: error_response_def)

theorem profile_rate_limit_gives_403_witness:
  "fst (get_profile profile_limited_upstream ''octocat'' initial_server) =
     Inr \<lparr>body = JObj [(''error'', JStr ''GitHub API rate limit exceeded. Try again later.'')],
          status_code = 403\<rparr>"
  using profile_rate_limit_gives_403
    [of profile_limited_upstream "''octocat''"
        "Json (JObj [(''message'', JStr ''API rate limit exceeded'')])" 200 "Json (JArr [])"
        initial_server]
  by (simp add: example_urls profile_limited_upstream_def)

text \<open>
  C4. Whenever the profile fetch succeeds (a 2xx status) and the repositories fetch
  returns a non-success status, 403 included, the handler returns the error record
  \<^verbatim>\<open>{"error": "User not found"}\<close> with status 404: a rate-limited repositories call alone
  is not answered with 403.
\<close>

theorem repos_failure_gives_404:
  assumes "upstream (GITHUB_API_URL @ username) = Returns profile_status profile_body"
    and "200 \<le> profile_status" and "profile_status < 300"
    and "upstream (GITHUB_REPOS_URL_format username) = Returns repos_status repos_body"
    and "repos_status < 200 \<or> 300 \<le> repos_status"
  shows "fst (get_profile upstream username s) =
           Inr \<lparr>body = JObj [(''error'', JStr ''User not found'')], status_code = 404\<rparr>"
  using get_profile_returns [OF assms(1) assms(4)] assms(2,3,5)
  by (auto simp add: error_response_def)

theorem repos_failure_gives_404_witness:
  "fst (get_profile repos_limited_upstream ''octocat'' initial_server) =
     Inr \<lparr>body = JObj [(''error'', JStr ''User not found'')], status_code = 404\<rparr>"
  using repos_failure_gives_404
    [of repos_limited_upstream "''octocat''" 200 "Json (JObj [(''login'', JStr ''octocat'')])" 403
        "Json (JObj [(''message'', JStr ''API rate limit exceeded'')])" initial_server]
  by (simp add: example_urls repos_limited_upstream_def)

text \<open>
  C6. When either outbound call fails at the transport level (\<^verbatim>\<open>requests.get\<close> raises
  before there is a status code), the handler returns an error record whose \<^verbatim>\<open>error\<close>
  field is the description of the failure, with status 500.
\<close>

theorem transport_failure_gives_500:
  assumes "upstream (GITHUB_API_URL @ username) = Raises msg \<or>
           (\<exists>profile_status profile_body.
              upstream (GITHUB_API_URL @ username) = Returns profile_status profile_body \<and>
              upstream (GITHUB_REPOS_URL_format username) = Raises msg)"
  shows "fst (get_profile upstream username s) =
           Inr \<lparr>body = JObj [(''error'', JStr msg)], status_code = 500\<rparr>"
  using assms by (auto simp add: get_profile_def requests_get_def error_response_def)

theorem transport_failure_gives_500_witness:
  "fst (get_profile unreachable_upstream ''octocat'' initial_server) =
     Inr \<lparr>body = JObj [(''error'', JStr ''Connection refused'')], status_code = 500\<rparr> \<and>
   fst (get_profile repos_timeout_upstream ''octocat'' initial_server) =
     Inr \<lparr>body = JObj [(''error'', JStr ''Read timed out'')], status_code = 500\<rparr>"
  using transport_failure_gives_500
      [of unreachable_upstream "''octocat''" "''Connection refused''" initial_server]
    transport_failure_gives_500
      [of repos_timeout_upstream "''octocat''" "''Read timed out''" initial_server]
  by (simp add: example_urls unreachable_upstream_def repos_timeout_upstream_def)

text \<open>The success branch answers with status 200 when it answers.\<close>

lemma success_response_status:
  "success_response profile_data repos_data = Inr resp \<Longrightarrow> status_code resp = 200"
  by (auto simp add: success_response_def and_then_def split: sum.splits)



text \<open>
  On payloads whose numeric fields are integers or missing, with a raw score the division
  can take, the success branch answers.
\<close>

lemma success_response_ints:
  assumes "int_field profile_data ''followers'' = Some f"
    and "int_field profile_data ''public_repos'' = Some p"
    and "total_of ''stargazers_count'' repos = Some s"
    and "total_of ''forks_count'' repos = Some t"
    and "\<bar>3 * f + 2 * p + 4 * s + t\<bar> < raw_score_limit"
  shows "is_success (success_response profile_data (JArr repos))"
proof -
  have "- raw_score_limit < 3 * f + 2 * p + 4 * s + t" "3 * f + 2 * p + 4 * s + t < raw_score_limit"
    using assms(5) by simp_all
  then obtain score where "score_of_raw (3 * f + 2 * p + 4 * s + t) = Inr score"
    using score_of_raw_returns by blast
  then have score: "calculate_gitworth profile_data (JArr repos) = Inr score"
    using calculate_gitworth_ints [OF assms(1-4)] by (simp only: weighted_sum)
  obtain kvs where kvs: "profile_data = JObj kvs"
    using assms(1) by (cases profile_data) (simp_all add: int_field_def)
  show ?thesis
    using score unfolding kvs
    by (simp add: success_response_def dict_get_def and_then_def is_success_def
        sum_over_ints [OF assms(3)] sum_over_ints [OF assms(4)])
qed





lemma scenario_fields:
  "int_field (JObj [(''login'', JStr ''octocat''), (''name'', JNull),
     (''followers'', JInt 100), (''public_repos'', JInt 20)]) ''followers'' = Some 100"
  "int_field (JObj [(''login'', JStr ''octocat''), (''name'', JNull),
     (''followers'', JInt 100), (''public_repos'', JInt 20)]) ''public_repos'' = Some 20"
  "total_of ''stargazers_count''
     [JObj [(''stargazers_count'', JInt 50), (''forks_count'', JInt 10)],
      JObj [(''stargazers_count'', JInt 25), (''forks_count'', JInt 5)]] = Some 75"
  "total_of ''forks_count''
     [JObj [(''stargazers_count'', JInt 50), (''forks_count'', JInt 10)],
      JObj [(''stargazers_count'', JInt 25), (''forks_count'', JInt 5)]] = Some 15"
  by (simp_all add: int_field_def)

lemma scenario_raw_score: "\<bar>3 * 100 + 2 * 20 + 4 * 75 + 15\<bar> < raw_score_limit"
  by (simp add: raw_score_limit_def)


lemma scenario_success:
  "is_success (success_response
     (JObj [(''login'', JStr ''octocat''), (''name'', JNull),
            (''followers'', JInt 100), (''public_repos'', JInt 20)])
     (JArr [JObj [(''stargazers_count'', JInt 50), (''forks_count'', JInt 10)],
            JObj [(''stargazers_count'', JInt 25), (''forks_count'', JInt 5)]]))"
  using scenario_raw_score by (intro success_response_ints [of _ 100 20 _ 75 15]) (simp_all only: scenario_fields)

lemma sparse_score:
  "calculate_gitworth (JObj [(''login'', JStr ''octocat'')]) (JArr []) = Inr (JFloat (Fin 0))"
proof -
  have "calculate_gitworth (JObj [(''login'', JStr ''octocat'')]) (JArr []) =
          score_of_raw (0 * 3 + 0 * 2 + 0 * 4 + 0 * 1)"
    by (rule calculate_gitworth_ints) (simp_all add: int_field_def)
  then show ?thesis by (simp add: score_of_raw_zero)
qed

text \<open>
  C5, evaluated where it fails: both calls return 200 and the profile has neither
  \<^verbatim>\<open>followers\<close> nor \<^verbatim>\<open>public_repos\<close>. The score is computed with 0 for both, and the
  status 200 response reports both fields as \<^verbatim>\<open>null\<close>, not as integers.
\<close>

theorem absent_followers_reported_null:
  "fst (get_profile sparse_upstream ''octocat'' initial_server) =
     Inr \<lparr>body = JObj
            [(''username'', JStr ''octocat''),
             (''name'', JNull),
             (''followers'', JNull),
             (''public_repos'', JNull),
             (''stars_received'', JInt 0),
             (''forks_received'', JInt 0),
             (''gitworth_score'', JFloat (Fin 0))],
          status_code = 200\<rparr>"
  by (simp add: get_profile_def requests_get_def sparse_upstream_def example_urls both_ok_def
      success_response_def sparse_score dict_get_def sum_over_def and_then_def)

section \<open>Properties of the cache\<close>

text \<open>The function itself never touches the cache, and it always fetches the profile.\<close>

lemma dispatch_request_get_profile:
  "dispatch_request now upstream username s = get_profile upstream username s"
  by (simp add: dispatch_request_def view_function_def route_def)

lemma get_profile_cache: "cache (snd (get_profile upstream username s)) = cache s"
  by (simp add: get_profile_def requests_get_def split: upstream_result.splits)

lemma dispatch_request_fetches:
  "length (requests_made s) < length (requests_made (snd (dispatch_request now upstream username s)))"
  by (simp add: dispatch_request_def view_function_def route_def get_profile_def
      requests_get_def split: upstream_result.splits)

text \<open>
  C1, evaluated where it fails: two requests for \<^verbatim>\<open>/profile/octocat\<close>, one second apart,
  against an upstream that answers 200 both times. The first request succeeds after two
  upstream calls; the second one issues both upstream calls again, because the URL map
  holds the undecorated function.
\<close>

theorem routed_requests_refetch:
  "is_success (fst (dispatch_request 0 scenario_upstream ''octocat'' initial_server)) \<and>
   requests_made (snd (dispatch_request 0 scenario_upstream ''octocat'' initial_server)) =
     [''https://api.github.com/users/octocat'',
      ''https://api.github.com/users/octocat/repos''] \<and>
   requests_made
     (snd (dispatch_request 1 scenario_upstream ''octocat''
        (snd (dispatch_request 0 scenario_upstream ''octocat'' initial_server)))) =
     [''https://api.github.com/users/octocat'',
      ''https://api.github.com/users/octocat/repos'',
      ''https://api.github.com/users/octocat'',
      ''https://api.github.com/users/octocat/repos'']"
  using scenario_success
  by (simp add: dispatch_request_def view_function_def route_def get_profile_def
      requests_get_def scenario_upstream_def example_urls initial_server_def both_ok_def)

text \<open>
  The memoized function, the one the module's name is bound to and no request reaches,
  does what C1 asks: after a call that missed the cache and returned, a call for the same
  username less than 300 seconds later returns the same payload and leaves the state,
  the log of upstream calls included, as it was.
\<close>

lemma get_profile_memoized_hit:
  assumes "cache s username = None"
    and "get_profile_memoized t0 upstream username s = (Inr rv, s1)"
    and "t < t0 + 300"
  shows "get_profile_memoized t upstream' username s1 = (Inr rv, s1)"
proof -
  obtain r s' where f: "get_profile upstream username s = (r, s')"
    by (cases "get_profile upstream username s")
  from assms(1,2) f have "r = Inr rv"
    and s1: "s1 = s'\<lparr>cache := (cache s')(username \<mapsto> (t0 + 300, rv))\<rparr>"
    by (auto simp add: get_profile_memoized_def memoize_def route_def split: sum.splits)
  from s1 have "cache s1 username = Some (t0 + 300, rv)"
    by simp
  with assms(3) show ?thesis
    by (simp add: get_profile_memoized_def memoize_def route_def)
qed

end
